theory Spec2Isabelle
  imports Complex_Main "HOL-Library.Char_ord"
begin

section \<open>The functional registry and builder of \<^verbatim>\<open>dict_builder.py\<close>\<close>

subsection \<open>Strings\<close>

text \<open>
  Names are byte strings. \<^verbatim>\<open>str.upper()\<close> maps the ASCII letters \<^verbatim>\<open>a..z\<close> to
  \<^verbatim>\<open>A..Z\<close> and leaves every other ASCII character alone; functional names, aliases
  and dispersion names are ASCII.
\<close>

definition is_lower :: "char \<Rightarrow> bool" where
  "is_lower c = (CHR ''a'' \<le> c \<and> c \<le> CHR ''z'')"

definition upper_char :: "char \<Rightarrow> char" where
  "upper_char c = (if is_lower c then char_of (of_char c - (32::nat)) else c)"

definition upper :: "string \<Rightarrow> string" where
  "upper s = map upper_char s"

text \<open>\<^verbatim>\<open>sep.join(xs)\<close>.\<close>

fun join :: "string \<Rightarrow> string list \<Rightarrow> string" where
  "join sep [] = []"
| "join sep [x] = x"
| "join sep (x # y # ys) = x @ sep @ join sep (y # ys)"

subsection \<open>Data model\<close>

text \<open>
  A functional definition is a Python dict with optional keys; a key that may be absent
  is an \<open>option\<close> field. A nested dict that is iterated (\<^verbatim>\<open>x_functionals\<close>,
  \<^verbatim>\<open>c_functionals\<close>, \<^verbatim>\<open>xc_functionals\<close>, the coefficient tables) is the list of
  its items in iteration order.
\<close>

record x_params =
  xp_alpha :: "real option"
  xp_omega :: "real option"
  xp_tweak :: "real list option"
  xp_use_libxc :: "bool option"

record x_hf_params =
  xh_alpha :: "real option"
  xh_beta :: "real option"
  xh_omega :: "real option"
  xh_use_libxc :: "string option"

record c_params =
  cp_alpha :: "real option"
  cp_tweak :: "real list option"

record c_mp2_params =
  mp_alpha :: "real option"
  mp_ss :: "real option"
  mp_os :: "real option"

text \<open>A row of \<^verbatim>\<open>dashcoeff[dispersion_type]\<close>: its optional citation and its coefficients.\<close>

record dash_row =
  row_citation :: "string option"
  row_values :: "(string \<times> real) list"

text \<open>The value under \<^verbatim>\<open>dispersion["citation"]\<close> is a string or, once filled in, \<^verbatim>\<open>False\<close>.\<close>

datatype citation_value = Str string | PyFalse

record dispersion_dict =
  d_citation :: "citation_value option"
  d_type :: string
  d_params :: dash_row

record functional_dict =
  name :: string
  aliases :: "string list option"
  xc_functionals :: "(string \<times> (string \<times> real) list) list option"
  x_functionals :: "(string \<times> x_params) list option"
  x_hf :: "x_hf_params option"
  c_functionals :: "(string \<times> c_params) list option"
  c_mp2 :: "c_mp2_params option"
  citation :: "string option"
  description :: "string option"
  dispersion :: "dispersion_dict option"

datatype error =
    KeyError string
  | NameError string
  | UnboundLocalError string
  | ValidationError string

subsection \<open>Registry builder\<close>

definition get_functional_aliases :: "functional_dict \<Rightarrow> string list" where
  "get_functional_aliases functional_dict =
     (case aliases functional_dict of
        Some als \<Rightarrow> map upper als @ [upper (name functional_dict)]
      | None \<Rightarrow> [upper (name functional_dict)])"

text \<open>The alias table for dispersion, in insertion order.\<close>

definition dispersion_names :: "(string \<times> string) list" where
  "dispersion_names =
     [(''d2p4'', ''d2p4''), (''d2gr'', ''d2gr''), (''d3zero'', ''d3zero''),
      (''d3bj'', ''d3bj''), (''d3mzero'', ''d3mzero''), (''d3mbj'', ''d3mbj''),
      (''d'', ''d2p4''), (''d2'', ''d2p4''), (''d3'', ''d3zero''), (''d3m'', ''d3mzero'')]"

text \<open>
  The registry \<^verbatim>\<open>functionals\<close> maps a key to a reference; the store \<open>heap\<close> holds the
  dict each reference points to, so that two keys bound to one dict share its later
  updates. The dicts of \<^verbatim>\<open>dict_functionals\<close> occupy the first cells, in iteration order;
  each \<^verbatim>\<open>copy.deepcopy\<close> allocates a new cell.
\<close>

record registry =
  functionals :: "string \<rightharpoonup> nat"
  heap :: "functional_dict list"

type_synonym dashcoeff = "(string \<times> (string \<times> dash_row) list) list"

text \<open>\<^verbatim>\<open>for alias in aliases: functionals[alias] = <ref>\<close>\<close>

fun register :: "string list \<Rightarrow> nat \<Rightarrow> (string \<rightharpoonup> nat) \<Rightarrow> (string \<rightharpoonup> nat)" where
  "register [] r m = m"
| "register (k # ks) r m = register ks r (m(k \<mapsto> r))"

text \<open>The body of the loop over \<^verbatim>\<open>dashcoeff[dispersion_type].keys()\<close> (lines 87--97).\<close>

definition dispersion_variant :: "functional_dict \<Rightarrow> string \<Rightarrow> dash_row \<Rightarrow> functional_dict" where
  "dispersion_variant base dispersion_type row =
     base\<lparr>name := name base @ ''-'' @ dispersion_type,
          dispersion := Some \<lparr>d_citation = map_option Str (row_citation row),
                              d_type = dispersion_type, d_params = row\<rparr>\<rparr>"

definition add_variant ::
  "functional_dict \<Rightarrow> string list \<Rightarrow> string \<Rightarrow> string \<Rightarrow> string \<times> dash_row \<Rightarrow> registry \<Rightarrow> registry" where
  "add_variant base functional_aliases dispersion_name dispersion_type item reg =
     (if upper (fst item) \<in> set functional_aliases then
        reg\<lparr>functionals :=
               register (map (\<lambda>al. al @ ''-'' @ upper dispersion_name) functional_aliases)
                 (length (heap reg)) (functionals reg),
            heap := heap reg @ [dispersion_variant base dispersion_type (snd item)]\<rparr>
      else reg)"

text \<open>The loop over \<^verbatim>\<open>dispersion_names.keys()\<close> (lines 84--97); a scheme missing from
  \<^verbatim>\<open>dashcoeff\<close> raises \<^verbatim>\<open>KeyError\<close>.\<close>

fun expand_dispersion ::
  "dashcoeff \<Rightarrow> functional_dict \<Rightarrow> string list \<Rightarrow> (string \<times> string) list \<Rightarrow> registry
     \<Rightarrow> error + registry" where
  "expand_dispersion dc base als [] reg = Inr reg"
| "expand_dispersion dc base als ((dispersion_name, dispersion_type) # rest) reg =
     (case map_of dc dispersion_type of
        None \<Rightarrow> Inl (KeyError dispersion_type)
      | Some rows \<Rightarrow>
          expand_dispersion dc base als rest
            (fold (add_variant base als dispersion_name dispersion_type) rows reg))"

text \<open>One iteration of the loop over \<^verbatim>\<open>dict_functionals.keys()\<close> (lines 75--97), for the
  definition held in cell \<open>r\<close>.\<close>

definition process_functional :: "dashcoeff \<Rightarrow> nat \<times> functional_dict \<Rightarrow> registry \<Rightarrow> error + registry" where
  "process_functional dc entry reg =
     (let fd = snd entry;
          functional_aliases = get_functional_aliases fd;
          reg1 = reg\<lparr>functionals := register functional_aliases (fst entry) (functionals reg)\<rparr>
      in if dispersion fd \<noteq> None then Inr reg1
         else expand_dispersion dc fd functional_aliases dispersion_names reg1)"

fun process_all :: "dashcoeff \<Rightarrow> (nat \<times> functional_dict) list \<Rightarrow> registry \<Rightarrow> error + registry" where
  "process_all dc [] reg = Inr reg"
| "process_all dc (e # es) reg =
     (case process_functional dc e reg of
        Inl err \<Rightarrow> Inl err
      | Inr reg' \<Rightarrow> process_all dc es reg')"

text \<open>The module-level construction of \<^verbatim>\<open>functionals\<close> from the definitions (the values
  of \<^verbatim>\<open>dict_functionals\<close>, in iteration order) and \<^verbatim>\<open>dashcoeff\<close>.\<close>

definition build_functionals :: "dashcoeff \<Rightarrow> functional_dict list \<Rightarrow> error + registry" where
  "build_functionals dc defs =
     process_all dc (enumerate 0 defs) \<lparr>functionals = Map.empty, heap = defs\<rparr>"

subsection \<open>Consistency validator\<close>

text \<open>
  Every \<^verbatim>\<open>raise ValidationError(... % (name))\<close> of \<^verbatim>\<open>check_consistency\<close> formats its
  message with the identifier \<^verbatim>\<open>name\<close>. The function's parameters are
  \<^verbatim>\<open>func_dictionary\<close> and \<^verbatim>\<open>func_name\<close>, and the module assigns no global \<^verbatim>\<open>name\<close>,
  so the identifier is bound only if the star import of the exceptions module binds it.
  That binding is the parameter \<open>g\<close>: with \<open>None\<close> the evaluation of the message
  raises \<^verbatim>\<open>NameError\<close> before any \<^verbatim>\<open>ValidationError\<close> is constructed.
\<close>

definition validation_error :: "string option \<Rightarrow> string \<Rightarrow> error" where
  "validation_error g msg =
     (case g of None \<Rightarrow> NameError ''name'' | Some n \<Rightarrow> ValidationError (msg @ n @ ''.''))"

text \<open>Lines 106--116.\<close>

definition check_xc :: "string option \<Rightarrow> functional_dict \<Rightarrow> error + unit" where
  "check_xc g func_dictionary =
     (if xc_functionals func_dictionary \<noteq> None then
        (if x_functionals func_dictionary \<noteq> None \<or> x_hf func_dictionary \<noteq> None then
           Inl (validation_error g ''SCF: Duplicate specification of exchange (XC + X) in functional '')
         else if c_functionals func_dictionary \<noteq> None \<or> c_mp2 func_dictionary \<noteq> None then
           Inl (validation_error g ''SCF: Duplicate specification of correlation (XC + C) in functional '')
         else Inr ())
      else if x_functionals func_dictionary = None \<and> x_hf func_dictionary = None then
        Inl (validation_error g ''SCF: No exchange specified in functional '')
      else if c_functionals func_dictionary = None \<and> c_mp2 func_dictionary = None then
        Inl (validation_error g ''SCF: No correlation specified in functional '')
      else Inr ())"

text \<open>
  Lines 119--122. The membership test is made on the keys of \<^verbatim>\<open>x_functionals\<close> itself
  (the component ids), not on the keys of the component's parameters; when it holds, the
  subscript \<^verbatim>\<open>[item]["use_libxc"]\<close> raises \<^verbatim>\<open>KeyError\<close> for a component without that key.
\<close>

fun count_use_libxc :: "(string \<times> x_params) list \<Rightarrow> (string \<times> x_params) list \<Rightarrow> nat \<Rightarrow> error + nat" where
  "count_use_libxc x_funcs [] use_libxc = Inr use_libxc"
| "count_use_libxc x_funcs ((item, params) # rest) use_libxc =
     (if ''use_libxc'' \<in> set (map fst x_funcs) then
        (case xp_use_libxc params of
           None \<Rightarrow> Inl (KeyError ''use_libxc'')
         | Some b \<Rightarrow> count_use_libxc x_funcs rest (if b then use_libxc + 1 else use_libxc))
      else count_use_libxc x_funcs rest use_libxc)"

text \<open>Lines 124--135.\<close>

definition check_libxc :: "string option \<Rightarrow> functional_dict \<Rightarrow> nat \<Rightarrow> error + unit" where
  "check_libxc g func_dictionary use_libxc =
     (if use_libxc > 1 then
        Inl (validation_error g ''SCF: Duplicate request for libxc exchange parameters in functional '')
      else if use_libxc = 1 \<and> x_hf func_dictionary \<noteq> None then
        Inl (validation_error g ''SCF: Inconsistent definition of exchange in functional '')
      else
        (case x_hf func_dictionary of
           None \<Rightarrow> Inr ()
         | Some xh \<Rightarrow>
             (case xh_use_libxc xh of
                None \<Rightarrow> Inr ()
              | Some u \<Rightarrow>
                  (case x_functionals func_dictionary of
                     None \<Rightarrow> Inl (KeyError ''x_functionals'')
                   | Some x_funcs \<Rightarrow>
                       if u \<notin> set (map fst x_funcs) then
                         Inl (validation_error g
                           ''SCF: Libxc parameters requested for an exchange functional not defined as a component of functional '')
                       else Inr ()))))"

definition check_consistency :: "string option \<Rightarrow> functional_dict \<Rightarrow> string \<Rightarrow> error + unit" where
  "check_consistency g func_dictionary func_name =
     (case check_xc g func_dictionary of
        Inl e \<Rightarrow> Inl e
      | Inr _ \<Rightarrow>
          (case (case x_functionals func_dictionary of
                   None \<Rightarrow> Inr 0
                 | Some x_funcs \<Rightarrow> count_use_libxc x_funcs x_funcs 0) of
             Inl e \<Rightarrow> Inl e
           | Inr use_libxc \<Rightarrow> check_libxc g func_dictionary use_libxc))"

subsection \<open>Functional constructor\<close>

text \<open>
  Modelled from the spec: the elementary and composite functional objects of
  \<^verbatim>\<open>psi4.core\<close> (\<^verbatim>\<open>LibXCFunctional\<close>, \<^verbatim>\<open>SuperFunctional\<close>) are not part of the source
  at hand. Following the contracts of the external interfaces, an object is the record of
  the values its setters store: a setter updates its field and touches no other, a
  getter reads the field. What the factories return (\<^verbatim>\<open>LibXCFunctional(name, restricted)\<close>,
  \<^verbatim>\<open>SuperFunctional.XC_build\<close>, \<^verbatim>\<open>SuperFunctional.blank\<close>) and the classification
  \<^verbatim>\<open>is_gga\<close> are parameters, collected in \<open>core\<close>.
\<close>

record cam_coef =
  ALPHA :: real
  OMEGA :: real
  BETA :: real

record libxc_functional =
  f_name :: string
  f_unpolarized :: bool
  f_alpha :: real
  f_omega :: real
  f_tweak :: "real list"
  f_citation :: string
  f_description :: string
  f_cam_coef :: cam_coef

record superfunctional =
  s_name :: string
  s_description :: string
  s_citation :: string
  s_x_alpha :: real
  s_x_beta :: real
  s_x_omega :: real
  s_c_alpha :: real
  s_c_ss_alpha :: real
  s_c_os_alpha :: real
  s_x_functionals :: "libxc_functional list"
  s_c_functionals :: "libxc_functional list"
  s_max_points :: int
  s_deriv :: int
  s_allocated :: bool

record core =
  LibXCFunctional :: "string \<Rightarrow> bool \<Rightarrow> libxc_functional"
  XC_build :: "string \<Rightarrow> bool \<Rightarrow> superfunctional"
  blank :: superfunctional
  is_gga :: "superfunctional \<Rightarrow> bool"

text \<open>The locals of the composite branch that the loops update.\<close>

record locals =
  sup :: superfunctional
  descr :: "string list"
  cites :: "string list"
  x_HF :: cam_coef

text \<open>\<^verbatim>\<open>if v not in xs: xs.append(v)\<close>\<close>

definition append_new :: "string \<Rightarrow> string list \<Rightarrow> string list" where
  "append_new v xs = (if v \<notin> set xs then xs @ [v] else xs)"

text \<open>One iteration of the loop over \<^verbatim>\<open>x_funcs.keys()\<close> (lines 160--176).\<close>

definition x_step :: "core \<Rightarrow> bool \<Rightarrow> string \<times> x_params \<Rightarrow> locals \<Rightarrow> locals" where
  "x_step cr restricted item l =
     (let x_name = ''XC_'' @ fst item;
          x_func = LibXCFunctional cr x_name restricted;
          x_params = snd item;
          requested = (xp_use_libxc x_params = Some True);
          hf = (if requested then f_cam_coef x_func else x_HF l);
          x_func = (if requested then x_func\<lparr>f_alpha := 1\<rparr> else x_func);
          x_func = (case xp_tweak x_params of Some t \<Rightarrow> x_func\<lparr>f_tweak := t\<rparr> | None \<Rightarrow> x_func);
          x_func = (case xp_alpha x_params of Some a \<Rightarrow> x_func\<lparr>f_alpha := a\<rparr> | None \<Rightarrow> x_func);
          x_func = (case xp_omega x_params of Some w \<Rightarrow> x_func\<lparr>f_omega := w\<rparr> | None \<Rightarrow> x_func)
      in l\<lparr>sup := (sup l)\<lparr>s_x_functionals := s_x_functionals (sup l) @ [x_func]\<rparr>,
           cites := append_new (f_citation x_func) (cites l),
           descr := append_new (f_description x_func) (descr l),
           x_HF := hf\<rparr>)"

text \<open>
  Lines 177--193. With \<^verbatim>\<open>x_hf\<close> present the triple queried at line 181 is assigned to
  \<^verbatim>\<open>x_HF\<close> and never read; a missing \<^verbatim>\<open>alpha\<close> is written into the dict
  \<^verbatim>\<open>functionals[name]["x_hf"]\<close>, not into the object. The second component is the
  dict \<^verbatim>\<open>functionals[name]\<close> after this step.
\<close>

definition x_hf_step :: "core \<Rightarrow> bool \<Rightarrow> functional_dict \<Rightarrow> locals \<Rightarrow> locals \<times> functional_dict" where
  "x_hf_step cr restricted fd l =
     (case x_hf fd of
        Some x_params \<Rightarrow>
          (let hf = (case xh_use_libxc x_params of
                       Some u \<Rightarrow> f_cam_coef (LibXCFunctional cr (''XC_'' @ u) restricted)
                     | None \<Rightarrow> x_HF l);
               s = sup l;
               s = (case xh_alpha x_params of Some a \<Rightarrow> s\<lparr>s_x_alpha := a\<rparr> | None \<Rightarrow> s);
               x_params' = (case xh_alpha x_params of Some a \<Rightarrow> x_params
                            | None \<Rightarrow> x_params\<lparr>xh_alpha := Some 0\<rparr>);
               s = (case xh_beta x_params of Some b \<Rightarrow> s\<lparr>s_x_beta := b\<rparr> | None \<Rightarrow> s);
               s = (case xh_omega x_params of Some w \<Rightarrow> s\<lparr>s_x_omega := w\<rparr> | None \<Rightarrow> s)
           in (l\<lparr>sup := s, x_HF := hf\<rparr>, fd\<lparr>x_hf := Some x_params'\<rparr>))
      | None \<Rightarrow>
          (l\<lparr>sup := (sup l)\<lparr>s_x_alpha := ALPHA (x_HF l) + BETA (x_HF l),
                             s_x_beta := ALPHA (x_HF l) - BETA (x_HF l),
                             s_x_omega := OMEGA (x_HF l)\<rparr>\<rparr>, fd))"

text \<open>One iteration of the loop over \<^verbatim>\<open>c_funcs.keys()\<close> (lines 197--210).\<close>

definition c_step :: "core \<Rightarrow> bool \<Rightarrow> string \<times> c_params \<Rightarrow> locals \<Rightarrow> locals" where
  "c_step cr restricted item l =
     (let c_name = ''XC_'' @ fst item;
          c_func = LibXCFunctional cr c_name restricted;
          c_params = snd item;
          c_func = (case cp_tweak c_params of Some t \<Rightarrow> c_func\<lparr>f_tweak := t\<rparr> | None \<Rightarrow> c_func);
          c_func = (case cp_alpha c_params of Some a \<Rightarrow> c_func\<lparr>f_alpha := a\<rparr>
                    | None \<Rightarrow> c_func\<lparr>f_alpha := 1\<rparr>)
      in l\<lparr>sup := (sup l)\<lparr>s_c_functionals := s_c_functionals (sup l) @ [c_func]\<rparr>,
           cites := append_new (f_citation c_func) (cites l),
           descr := append_new (f_description c_func) (descr l)\<rparr>)"

text \<open>Lines 211--220.\<close>

definition c_mp2_step :: "functional_dict \<Rightarrow> superfunctional \<Rightarrow> superfunctional" where
  "c_mp2_step fd s =
     (case c_mp2 fd of
        None \<Rightarrow> s
      | Some c_params \<Rightarrow>
          (let s = (case mp_alpha c_params of Some a \<Rightarrow> s\<lparr>s_c_alpha := a\<rparr>
                    | None \<Rightarrow> s\<lparr>s_c_alpha := 0\<rparr>);
               s = (case mp_ss c_params of Some v \<Rightarrow> s\<lparr>s_c_ss_alpha := v\<rparr> | None \<Rightarrow> s);
               s = (case mp_os c_params of Some v \<Rightarrow> s\<lparr>s_c_os_alpha := v\<rparr> | None \<Rightarrow> s)
           in s))"

text \<open>The branch of lines 153--224: the composite object and the dict after the branch.\<close>

definition build_blank :: "core \<Rightarrow> bool \<Rightarrow> functional_dict \<Rightarrow> superfunctional \<times> functional_dict" where
  "build_blank cr restricted fd =
     (let l = \<lparr>sup = blank cr, descr = [], cites = [],
               x_HF = \<lparr>ALPHA = 0, OMEGA = 0, BETA = 0\<rparr>\<rparr>;
          l = (case x_functionals fd of
                 Some x_funcs \<Rightarrow> fold (x_step cr restricted) x_funcs l
               | None \<Rightarrow> l);
          (l, fd') = x_hf_step cr restricted fd l;
          l = (case c_functionals fd' of
                 Some c_funcs \<Rightarrow> fold (c_step cr restricted) c_funcs l
               | None \<Rightarrow> l);
          s = c_mp2_step fd' (sup l);
          s = s\<lparr>s_citation := join [CHR 0x0A] (cites l)\<rparr>;
          s = s\<lparr>s_description := join [CHR 0x0A] (descr l)\<rparr>
      in (s, fd'))"

text \<open>
  The branch of lines 141--151. The loop leaves in \<^verbatim>\<open>xc_name\<close> the last key iterated;
  over an empty dict the local is never assigned and line 143 raises
  \<^verbatim>\<open>UnboundLocalError\<close>.
\<close>

definition xc_description :: "core \<Rightarrow> string \<Rightarrow> superfunctional \<Rightarrow> string" where
  "xc_description cr nm s =
     (let d = ''    '' @ upper nm @ '' '';
          d = (if is_gga cr s then (if s_x_alpha s > 0 then d @ ''Hyb-GGA '' else d @ ''GGA '') else d)
      in d @ ''Exchange-Correlation Functional'' @ [CHR 0x0A])"

definition build_xc :: "core \<Rightarrow> string \<Rightarrow> bool \<Rightarrow> (string \<times> (string \<times> real) list) list
    \<Rightarrow> error + superfunctional" where
  "build_xc cr nm restricted xcs =
     (if xcs = [] then Inl (UnboundLocalError ''xc_name'')
      else
        (let xc_name = ''XC_'' @ fst (last xcs);
             s = XC_build cr xc_name restricted
         in Inr (s\<lparr>s_description := xc_description cr nm s\<rparr>)))"

text \<open>Lines 231--236: the returned dispersion and the dict after the default is filled in.\<close>

definition dispersion_step :: "functional_dict \<Rightarrow> dispersion_dict option \<times> functional_dict" where
  "dispersion_step fd =
     (case dispersion fd of
        None \<Rightarrow> (None, fd)
      | Some dp \<Rightarrow>
          (let dp' = (case d_citation dp of
                        None \<Rightarrow> dp\<lparr>d_citation := Some PyFalse\<rparr>
                      | Some c \<Rightarrow> dp)
           in (Some dp', fd\<lparr>dispersion := Some dp'\<rparr>)))"

text \<open>Lines 226--229 and 238--241.\<close>

definition finish :: "functional_dict \<Rightarrow> string \<Rightarrow> int \<Rightarrow> int \<Rightarrow> superfunctional \<Rightarrow> superfunctional" where
  "finish fd nm npoints deriv s =
     (let s = (case citation fd of Some c \<Rightarrow> s\<lparr>s_citation := c\<rparr> | None \<Rightarrow> s);
          s = (case description fd of Some d \<Rightarrow> s\<lparr>s_description := d\<rparr> | None \<Rightarrow> s)
      in s\<lparr>s_max_points := npoints, s_deriv := deriv, s_name := upper nm, s_allocated := True\<rparr>)"

text \<open>
  \<^verbatim>\<open>build_superfunctional_from_dictionary(name, npoints, deriv, restricted)\<close>, run against
  the registry \<open>reg\<close>; it returns the raised error or the pair \<^verbatim>\<open>(sup, dispersion)\<close>
  (\<open>None\<close> for \<^verbatim>\<open>False\<close>), together with the registry afterwards. Every
  \<^verbatim>\<open>functionals[name]\<close> is an exact-key lookup; the first raises \<^verbatim>\<open>KeyError\<close> on a key
  that is absent.
\<close>

definition build_superfunctional_from_dictionary ::
  "core \<Rightarrow> string option \<Rightarrow> string \<Rightarrow> int \<Rightarrow> int \<Rightarrow> bool \<Rightarrow> registry
     \<Rightarrow> (error + superfunctional \<times> dispersion_dict option) \<times> registry" where
  "build_superfunctional_from_dictionary cr g nm npoints deriv restricted reg =
     (case functionals reg nm of
        None \<Rightarrow> (Inl (KeyError nm), reg)
      | Some r \<Rightarrow>
          (let fd = heap reg ! r in
           case check_consistency g fd nm of
             Inl e \<Rightarrow> (Inl e, reg)
           | Inr _ \<Rightarrow>
               (case (case xc_functionals fd of
                        Some xcs \<Rightarrow> map_sum id (\<lambda>s. (s, fd)) (build_xc cr nm restricted xcs)
                      | None \<Rightarrow> Inr (build_blank cr restricted fd)) of
                  Inl e \<Rightarrow> (Inl e, reg)
                | Inr (s, fd1) \<Rightarrow>
                    (let (disp, fd2) = dispersion_step fd1
                     in (Inr (finish fd2 nm npoints deriv s, disp),
                         reg\<lparr>heap := (heap reg)[r := fd2]\<rparr>)))))"

subsection \<open>Notions used in the statements\<close>

text \<open>
  The triple held in \<^verbatim>\<open>x_HF\<close> after the loop over \<^verbatim>\<open>x_functionals\<close>: the initial zeros
  if no entry requests hybrid coefficients, otherwise the triple queried for the entry that
  does (the loop assigns \<^verbatim>\<open>x_HF\<close> at every requesting entry, so the last assignment stays).
\<close>

definition requested_triple :: "core \<Rightarrow> bool \<Rightarrow> (string \<times> x_params) list \<Rightarrow> cam_coef" where
  "requested_triple cr restricted x_funcs =
     (case filter (\<lambda>item. xp_use_libxc (snd item) = Some True) x_funcs of
        [] \<Rightarrow> \<lparr>ALPHA = 0, OMEGA = 0, BETA = 0\<rparr>
      | rs \<Rightarrow> f_cam_coef (LibXCFunctional cr (''XC_'' @ fst (last rs)) restricted))"

text \<open>
  The keys that one iteration of the loop over \<^verbatim>\<open>dict_functionals\<close> assigns: the aliases
  of the definition and, unless it carries a dispersion already, the composite keys
  \<^verbatim>\<open>alias + "-" + dispersion_name.upper()\<close> of every dispersion name whose scheme has a row
  matching one of the aliases.
\<close>

definition composite_keys :: "string list \<Rightarrow> string \<Rightarrow> string list" where
  "composite_keys als dispersion_name = map (\<lambda>al. al @ ''-'' @ upper dispersion_name) als"

definition matching_rows :: "dashcoeff \<Rightarrow> string list \<Rightarrow> string \<Rightarrow> (string \<times> dash_row) list" where
  "matching_rows dc als dispersion_type =
     (case map_of dc dispersion_type of
        None \<Rightarrow> []
      | Some rows \<Rightarrow> filter (\<lambda>item. upper (fst item) \<in> set als) rows)"

definition variant_keys :: "dashcoeff \<Rightarrow> functional_dict \<Rightarrow> string list" where
  "variant_keys dc fd =
     (case dispersion fd of
        Some d \<Rightarrow> []
      | None \<Rightarrow>
          concat (map (\<lambda>(dispersion_name, dispersion_type).
                         if matching_rows dc (get_functional_aliases fd) dispersion_type = [] then []
                         else composite_keys (get_functional_aliases fd) dispersion_name)
                    dispersion_names))"

definition keys_written :: "dashcoeff \<Rightarrow> functional_dict \<Rightarrow> string list" where
  "keys_written dc fd = get_functional_aliases fd @ variant_keys dc fd"

text \<open>The defaults that a build writes into a dict: \<^verbatim>\<open>x_hf["alpha"] = 0.0\<close> and
  \<^verbatim>\<open>dispersion["citation"] = False\<close>, each only where the key is absent.\<close>

definition fill_alpha :: "x_hf_params \<Rightarrow> x_hf_params" where
  "fill_alpha xh = (case xh_alpha xh of None \<Rightarrow> xh\<lparr>xh_alpha := Some 0\<rparr> | Some a \<Rightarrow> xh)"

definition fill_citation :: "dispersion_dict \<Rightarrow> dispersion_dict" where
  "fill_citation d = (case d_citation d of None \<Rightarrow> d\<lparr>d_citation := Some PyFalse\<rparr> | Some c \<Rightarrow> d)"

definition with_defaults :: "functional_dict \<Rightarrow> functional_dict" where
  "with_defaults fd = fd\<lparr>x_hf := map_option fill_alpha (x_hf fd),
                          dispersion := map_option fill_citation (dispersion fd)\<rparr>"

text \<open>
  Two facts about a pair of registries that the proofs about the builder carry along:
  the later store extends the earlier one (cells are only appended), and a key holds a
  dispersion variant of \<open>base\<close> for the scheme \<open>dt\<close>.
\<close>

definition extends :: "registry \<Rightarrow> registry \<Rightarrow> bool" where
  "extends reg reg' = (\<exists>ys. heap reg' = heap reg @ ys)"

definition holds_variant :: "registry \<Rightarrow> string \<Rightarrow> functional_dict \<Rightarrow> string \<Rightarrow> bool" where
  "holds_variant reg k base dt =
     (\<exists>r row. functionals reg k = Some r \<and> r < length (heap reg) \<and>
              heap reg ! r = dispersion_variant base dt row)"

subsection \<open>Example inputs\<close>

definition no_x_params :: x_params where
  "no_x_params = \<lparr>xp_alpha = None, xp_omega = None, xp_tweak = None, xp_use_libxc = None\<rparr>"

definition no_x_hf_params :: x_hf_params where
  "no_x_hf_params = \<lparr>xh_alpha = None, xh_beta = None, xh_omega = None, xh_use_libxc = None\<rparr>"

text \<open>The dict \<^verbatim>\<open>{"name": nm}\<close>.\<close>

definition bare :: "string \<Rightarrow> functional_dict" where
  "bare nm = \<lparr>name = nm, aliases = None, xc_functionals = None, x_functionals = None,
     x_hf = None, c_functionals = None, c_mp2 = None, citation = None, description = None,
     dispersion = None\<rparr>"

text \<open>\<^verbatim>\<open>{"name": "dup", "xc_functionals": {"HYB_GGA_XC_B3LYP": {}},
  "x_functionals": {"GGA_X_B88": {}}}\<close>\<close>

definition ex_xc_and_x :: functional_dict where
  "ex_xc_and_x = (bare ''dup'')\<lparr>xc_functionals := Some [(''HYB_GGA_XC_B3LYP'', [])],
     x_functionals := Some [(''GGA_X_B88'', no_x_params)]\<rparr>"

text \<open>\<^verbatim>\<open>{"name": "twohyb", "x_functionals": {"HYB_GGA_XC_B3LYP": {"use_libxc": True},
  "HYB_GGA_XC_PBEH": {"use_libxc": True}}, "c_functionals": {}}\<close>\<close>

definition ex_two_libxc :: functional_dict where
  "ex_two_libxc = (bare ''twohyb'')\<lparr>x_functionals :=
       Some [(''HYB_GGA_XC_B3LYP'', no_x_params\<lparr>xp_use_libxc := Some True\<rparr>),
             (''HYB_GGA_XC_PBEH'', no_x_params\<lparr>xp_use_libxc := Some True\<rparr>)],
     c_functionals := Some []\<rparr>"

text \<open>The same with \<^verbatim>\<open>"x_hf": {"use_libxc": "GGA_X_PBE"}\<close> added.\<close>

definition ex_two_libxc_unresolved :: functional_dict where
  "ex_two_libxc_unresolved =
     ex_two_libxc\<lparr>x_hf := Some (no_x_hf_params\<lparr>xh_use_libxc := Some ''GGA_X_PBE''\<rparr>)\<rparr>"

text \<open>
  \<^verbatim>\<open>psi4.core\<close> as far as the examples need it: \<^verbatim>\<open>HYB_GGA_XC_B3LYP\<close> is a hybrid with
  a fifth of exact exchange, every other component is a pure functional; a blank
  composite starts with all mixing parameters at zero.
\<close>

definition example_core :: core where
  "example_core =
     \<lparr>LibXCFunctional = (\<lambda>n r.
        \<lparr>f_name = n, f_unpolarized = r, f_alpha = 1, f_omega = 0, f_tweak = [],
         f_citation = ''cite '' @ n, f_description = ''about '' @ n,
         f_cam_coef = \<lparr>ALPHA = (if n = ''XC_HYB_GGA_XC_B3LYP'' then 1 / 5 else 0),
                       OMEGA = 0, BETA = 0\<rparr>\<rparr>),
      XC_build = (\<lambda>n r.
        \<lparr>s_name = n, s_description = [], s_citation = [],
         s_x_alpha = (if n = ''XC_HYB_GGA_XC_B3LYP'' then 1 / 5 else 0),
         s_x_beta = 0, s_x_omega = 0, s_c_alpha = 0, s_c_ss_alpha = 0, s_c_os_alpha = 0,
         s_x_functionals = [], s_c_functionals = [], s_max_points = 0, s_deriv = 0,
         s_allocated = False\<rparr>),
      blank =
        \<lparr>s_name = [], s_description = [], s_citation = [],
         s_x_alpha = 0, s_x_beta = 0, s_x_omega = 0, s_c_alpha = 0, s_c_ss_alpha = 0,
         s_c_os_alpha = 0, s_x_functionals = [], s_c_functionals = [], s_max_points = 0,
         s_deriv = 0, s_allocated = False\<rparr>,
      is_gga = (\<lambda>s. True)\<rparr>"

text \<open>A coefficient table with all six schemes; only \<^verbatim>\<open>d3zero\<close> has a row, for \<^verbatim>\<open>b88\<close>,
  without a citation.\<close>

definition example_dashcoeff :: dashcoeff where
  "example_dashcoeff =
     [(''d2p4'', []), (''d2gr'', []),
      (''d3zero'', [(''b88'', \<lparr>row_citation = None, row_values = [(''s6'', 1)]\<rparr>)]),
      (''d3bj'', []), (''d3mzero'', []), (''d3mbj'', [])]"

text \<open>\<^verbatim>\<open>{"name": "b3lyp_xc", "xc_functionals": {"GGA_XC_B97_D": {}, "HYB_GGA_XC_B3LYP": {}}}\<close>\<close>

definition ex_bundled :: functional_dict where
  "ex_bundled = (bare ''b3lyp_xc'')\<lparr>xc_functionals :=
     Some [(''GGA_XC_B97_D'', []), (''HYB_GGA_XC_B3LYP'', [])]\<rparr>"

text \<open>\<^verbatim>\<open>{"name": "b88", "alias": ["Becke88"], "x_functionals": {"GGA_X_B88": {}},
  "c_functionals": {}}\<close>\<close>

definition ex_b88 :: functional_dict where
  "ex_b88 = (bare ''b88'')\<lparr>aliases := Some [''Becke88''],
     x_functionals := Some [(''GGA_X_B88'', no_x_params)], c_functionals := Some []\<rparr>"

text \<open>\<^verbatim>\<open>{"name": "b3lyp", "x_functionals": {"GGA_X_B88": {}, "HYB_GGA_XC_B3LYP":
  {"use_libxc": True}}, "c_functionals": {}}\<close>\<close>

definition ex_hybrid :: functional_dict where
  "ex_hybrid = (bare ''b3lyp'')\<lparr>x_functionals :=
       Some [(''GGA_X_B88'', no_x_params),
             (''HYB_GGA_XC_B3LYP'', no_x_params\<lparr>xp_use_libxc := Some True\<rparr>)],
     c_functionals := Some []\<rparr>"

text \<open>\<^verbatim>\<open>{"name": "hfx", "x_functionals": {"HYB_GGA_XC_B3LYP": {}},
  "x_hf": {"beta": 0.5, "use_libxc": "HYB_GGA_XC_B3LYP"}, "c_functionals": {}}\<close>\<close>

definition ex_x_hf :: functional_dict where
  "ex_x_hf = (bare ''hfx'')\<lparr>x_functionals := Some [(''HYB_GGA_XC_B3LYP'', no_x_params)],
     x_hf := Some (no_x_hf_params\<lparr>xh_beta := Some (1 / 2),
                                   xh_use_libxc := Some ''HYB_GGA_XC_B3LYP''\<rparr>),
     c_functionals := Some []\<rparr>"

text \<open>The registry built from these four definitions.\<close>

definition example_registry :: registry where
  "example_registry =
     projr (build_functionals example_dashcoeff [ex_bundled, ex_b88, ex_hybrid, ex_x_hf])"

text \<open>
  A definition that carries its own dispersion and whose name is a composite key of
  \<open>ex_b88\<close>: \<^verbatim>\<open>{"name": "B88-D3", "x_functionals": {"GGA_X_B88": {}}, "c_functionals": {},
  "dispersion": {"type": "d2p4", "params": {"s6": 1.0}}}\<close>; and the registry built from
  \<open>ex_b88\<close> followed by it.
\<close>

definition ex_b88_d3 :: functional_dict where
  "ex_b88_d3 = (bare ''B88-D3'')\<lparr>x_functionals := Some [(''GGA_X_B88'', no_x_params)],
     c_functionals := Some [],
     dispersion := Some \<lparr>d_citation = None, d_type = ''d2p4'',
                          d_params = \<lparr>row_citation = None, row_values = [(''s6'', 1)]\<rparr>\<rparr>\<rparr>"

definition collision_registry :: registry where
  "collision_registry = projr (build_functionals example_dashcoeff [ex_b88, ex_b88_d3])"

section \<open>Properties\<close>

subsection \<open>Consistency validator\<close>

lemma count_use_libxc_no_key:
  "''use_libxc'' \<notin> set (map fst x_funcs) \<Longrightarrow> count_use_libxc x_funcs ys n = Inr n"
  by (induction ys arbitrary: n) auto

lemma check_xc_neither:
  assumes "xc_functionals fd = None" "x_functionals fd = None" "x_hf fd = None"
  shows "check_consistency g fd nm = Inl (validation_error g ''SCF: No exchange specified in functional '')"
  using assms by (simp add: check_consistency_def check_xc_def)

text \<open>
  Claim C2 at the dict \<open>ex_xc_and_x\<close>, in which \<^verbatim>\<open>xc_functionals\<close> and
  \<^verbatim>\<open>x_functionals\<close> co-occur: with no binding of \<^verbatim>\<open>name\<close> the validator reaches the raise
  for the duplicate exchange and what it raises is \<^verbatim>\<open>NameError\<close>, not a
  \<^verbatim>\<open>ValidationError\<close>.
\<close>

theorem C2_duplicate_exchange_raises_name_error:
  "check_consistency None ex_xc_and_x func_name = Inl (NameError ''name'')"
  by (simp add: check_consistency_def check_xc_def validation_error_def ex_xc_and_x_def bare_def)

text \<open>
  Claim C3 at the dict \<open>ex_two_libxc\<close>, whose two \<^verbatim>\<open>x_functionals\<close> entries both set
  \<^verbatim>\<open>use_libxc\<close> to \<^verbatim>\<open>True\<close>: the validator counts no request and returns without raising,
  whatever \<^verbatim>\<open>name\<close> is bound to.
\<close>

theorem C3_two_use_libxc_accepted:
  "check_consistency g ex_two_libxc func_name = Inr ()"
  by (simp add: check_consistency_def check_xc_def check_libxc_def ex_two_libxc_def bare_def
      no_x_params_def)

text \<open>
  Claim C6 at the dict \<open>ex_two_libxc_unresolved\<close>, which violates the fifth documented
  check (two hybrid requests) and the seventh (\<^verbatim>\<open>x_hf.use_libxc\<close> names no component): the
  error raised is that of the seventh check, the fifth having counted no request.
\<close>

theorem C6_later_check_reported:
  "check_consistency g ex_two_libxc_unresolved func_name =
     Inl (validation_error g
       ''SCF: Libxc parameters requested for an exchange functional not defined as a component of functional '')"
  by (simp add: check_consistency_def check_xc_def check_libxc_def ex_two_libxc_unresolved_def
      ex_two_libxc_def bare_def no_x_params_def no_x_hf_params_def)

subsection \<open>Functional constructor\<close>

lemma x_step_mixing:
  "s_x_alpha (sup (x_step cr rs it l)) = s_x_alpha (sup l)"
  "s_x_beta (sup (x_step cr rs it l)) = s_x_beta (sup l)"
  "s_x_omega (sup (x_step cr rs it l)) = s_x_omega (sup l)"
  by (simp_all add: x_step_def Let_def)

lemma fold_x_step_mixing:
  "s_x_alpha (sup (fold (x_step cr rs) xs l)) = s_x_alpha (sup l)"
  "s_x_beta (sup (fold (x_step cr rs) xs l)) = s_x_beta (sup l)"
  "s_x_omega (sup (fold (x_step cr rs) xs l)) = s_x_omega (sup l)"
  by (induction xs arbitrary: l) (simp_all add: x_step_mixing)

lemma c_step_mixing:
  "s_x_alpha (sup (c_step cr rs it l)) = s_x_alpha (sup l)"
  "s_x_beta (sup (c_step cr rs it l)) = s_x_beta (sup l)"
  "s_x_omega (sup (c_step cr rs it l)) = s_x_omega (sup l)"
  by (simp_all add: c_step_def Let_def)

lemma fold_c_step_mixing:
  "s_x_alpha (sup (fold (c_step cr rs) xs l)) = s_x_alpha (sup l)"
  "s_x_beta (sup (fold (c_step cr rs) xs l)) = s_x_beta (sup l)"
  "s_x_omega (sup (fold (c_step cr rs) xs l)) = s_x_omega (sup l)"
  by (induction xs arbitrary: l) (simp_all add: c_step_mixing)

lemma c_mp2_step_mixing:
  "s_x_alpha (c_mp2_step fd s) = s_x_alpha s"
  "s_x_beta (c_mp2_step fd s) = s_x_beta s"
  "s_x_omega (c_mp2_step fd s) = s_x_omega s"
  by (simp_all add: c_mp2_step_def Let_def split: option.splits)

lemma finish_mixing:
  "s_x_alpha (finish fd nm n d s) = s_x_alpha s"
  "s_x_beta (finish fd nm n d s) = s_x_beta s"
  "s_x_omega (finish fd nm n d s) = s_x_omega s"
  by (simp_all add: finish_def Let_def split: option.splits)

lemma x_step_x_HF:
  "x_HF (x_step cr rs it l) =
     (if xp_use_libxc (snd it) = Some True then f_cam_coef (LibXCFunctional cr (''XC_'' @ fst it) rs)
      else x_HF l)"
  by (simp add: x_step_def Let_def)

lemma fold_x_step_x_HF:
  "x_HF (fold (x_step cr rs) xs l) =
     (case filter (\<lambda>item. xp_use_libxc (snd item) = Some True) xs of
        [] \<Rightarrow> x_HF l
      | ys \<Rightarrow> f_cam_coef (LibXCFunctional cr (''XC_'' @ fst (last ys)) rs))"
proof (induction xs arbitrary: l)
  case Nil
  then show ?case by simp
next
  case (Cons it xs)
  show ?case
    by (simp add: Cons.IH x_step_x_HF split: list.splits)
qed

lemma c_step_sup_only:
  "x_HF (c_step cr rs it l) = x_HF l"
  by (simp add: c_step_def Let_def)


lemma build_blank_mixing_no_x_hf:
  assumes "x_hf fd = None" "x_functionals fd = Some xfs"
  shows "s_x_alpha (fst (build_blank cr rs fd)) = ALPHA (requested_triple cr rs xfs) + BETA (requested_triple cr rs xfs)"
    and "s_x_beta (fst (build_blank cr rs fd)) = ALPHA (requested_triple cr rs xfs) - BETA (requested_triple cr rs xfs)"
    and "s_x_omega (fst (build_blank cr rs fd)) = OMEGA (requested_triple cr rs xfs)"
  using assms
  by (simp_all add: build_blank_def x_hf_step_def Let_def c_mp2_step_mixing fold_c_step_mixing fold_x_step_mixing
      fold_x_step_x_HF requested_triple_def
      split: option.splits prod.splits list.splits)

lemma build_blank_dict:
  "snd (build_blank cr rs fd) = fd\<lparr>x_hf := map_option fill_alpha (x_hf fd)\<rparr>"
  by (simp add: build_blank_def x_hf_step_def Let_def fill_alpha_def split: option.splits prod.splits)

lemma dispersion_step_dict:
  "snd (dispersion_step fd) = fd\<lparr>dispersion := map_option fill_citation (dispersion fd)\<rparr>"
  "fst (dispersion_step fd) = map_option fill_citation (dispersion fd)"
  by (simp_all add: dispersion_step_def Let_def fill_citation_def split: option.splits)

lemma check_consistency_xc_no_x_hf:
  "check_consistency g fd nm = Inr u \<Longrightarrow> xc_functionals fd \<noteq> None \<Longrightarrow> x_hf fd = None"
  by (auto simp: check_consistency_def check_xc_def split: if_splits sum.splits)

lemma check_consistency_exchange:
  "check_consistency g fd nm = Inr u \<Longrightarrow> xc_functionals fd = None \<Longrightarrow> x_hf fd = None \<Longrightarrow> x_functionals fd \<noteq> None"
  by (auto simp: check_consistency_def check_xc_def split: if_splits sum.splits)


lemma finish_cong:
  "citation fd' = citation fd \<Longrightarrow> description fd' = description fd \<Longrightarrow> finish fd' nm n d s = finish fd nm n d s"
  by (simp add: finish_def)



lemma with_defaults_blank:
  "snd (dispersion_step (snd (build_blank cr rs fd))) = with_defaults fd"
  by (simp add: dispersion_step_dict build_blank_dict with_defaults_def)

lemma with_defaults_xc:
  "x_hf fd = None \<Longrightarrow> snd (dispersion_step fd) = with_defaults fd"
  by (simp add: dispersion_step_dict with_defaults_def)

lemma finish_with_defaults:
  "finish (with_defaults fd) nm n d s = finish fd nm n d s"
  by (simp add: finish_def with_defaults_def)

lemma fst_dispersion_step_blank:
  "fst (dispersion_step (snd (build_blank cr rs fd))) = map_option fill_citation (dispersion fd)"
  by (simp add: dispersion_step_dict build_blank_dict)

lemma build_blank_branch:
  assumes "functionals reg nm = Some r" "check_consistency g (heap reg ! r) nm = Inr ()"
    and "xc_functionals (heap reg ! r) = None"
  shows "build_superfunctional_from_dictionary cr g nm np dv rs reg =
     (Inr (finish (heap reg ! r) nm np dv (fst (build_blank cr rs (heap reg ! r))),
           map_option fill_citation (dispersion (heap reg ! r))),
      reg\<lparr>heap := (heap reg)[r := with_defaults (heap reg ! r)]\<rparr>)"
proof -
  obtain s fd1 where b: "build_blank cr rs (heap reg ! r) = (s, fd1)"
    by (cases "build_blank cr rs (heap reg ! r)")
  obtain disp fd2 where d: "dispersion_step fd1 = (disp, fd2)"
    by (cases "dispersion_step fd1")
  have fd2: "fd2 = with_defaults (heap reg ! r)"
    using with_defaults_blank [of cr rs "heap reg ! r"] b d by simp
  have disp: "disp = map_option fill_citation (dispersion (heap reg ! r))"
    using fst_dispersion_step_blank [of cr rs "heap reg ! r"] b d by simp
  show ?thesis
    using assms b d
    by (simp add: build_superfunctional_from_dictionary_def fd2 [symmetric] disp [symmetric])
       (simp add: fd2 finish_with_defaults)
qed

lemma build_xc_branch:
  assumes "functionals reg nm = Some r" "check_consistency g (heap reg ! r) nm = Inr ()"
    and "xc_functionals (heap reg ! r) = Some xcs"
  shows "build_superfunctional_from_dictionary cr g nm np dv rs reg =
     (if xcs = [] then (Inl (UnboundLocalError ''xc_name''), reg)
      else (Inr (finish (heap reg ! r) nm np dv
                   ((XC_build cr (''XC_'' @ fst (last xcs)) rs)
                      \<lparr>s_description := xc_description cr nm (XC_build cr (''XC_'' @ fst (last xcs)) rs)\<rparr>),
                 map_option fill_citation (dispersion (heap reg ! r))),
            reg\<lparr>heap := (heap reg)[r := with_defaults (heap reg ! r)]\<rparr>))"
proof -
  have nohf: "x_hf (heap reg ! r) = None"
    using check_consistency_xc_no_x_hf assms by blast
  obtain disp fd2 where d: "dispersion_step (heap reg ! r) = (disp, fd2)"
    by (cases "dispersion_step (heap reg ! r)")
  have fd2: "fd2 = with_defaults (heap reg ! r)"
    using with_defaults_xc [OF nohf] d by simp
  have disp: "disp = map_option fill_citation (dispersion (heap reg ! r))"
    using dispersion_step_dict(2) [of "heap reg ! r"] d by simp
  show ?thesis
    using assms d
    by (simp add: build_superfunctional_from_dictionary_def build_xc_def Let_def
        fd2 [symmetric] disp [symmetric])
       (simp add: fd2 finish_with_defaults)
qed

lemma build_lookup_fails:
  "functionals reg nm = None \<Longrightarrow>
   build_superfunctional_from_dictionary cr g nm np dv rs reg = (Inl (KeyError nm), reg)"
  by (simp add: build_superfunctional_from_dictionary_def)

lemma build_check_fails:
  "functionals reg nm = Some r \<Longrightarrow> check_consistency g (heap reg ! r) nm = Inl e \<Longrightarrow>
   build_superfunctional_from_dictionary cr g nm np dv rs reg = (Inl e, reg)"
  by (simp add: build_superfunctional_from_dictionary_def)


lemma not_isl_eq: "\<not> isl x \<Longrightarrow> x = Inr (fst (projr x), snd (projr x))"
  by (cases x) auto

text \<open>
  Claim C9: when the dict that \<open>nm\<close> resolves to has \<^verbatim>\<open>xc_functionals\<close> and the build
  returns an object, the dict of components is not empty and the object is the one
  \<^verbatim>\<open>XC_build\<close> makes for the last key iterated, with the generated description and the
  finishing settings; no other key takes part.
\<close>

theorem C9_bundled_uses_last_key:
  assumes "functionals reg nm = Some r"
    and "xc_functionals (heap reg ! r) = Some xcs"
    and "fst (build_superfunctional_from_dictionary cr g nm np dv rs reg) = Inr (s, disp)"
  shows "xcs \<noteq> [] \<and>
         s = finish (heap reg ! r) nm np dv
               ((XC_build cr (''XC_'' @ fst (last xcs)) rs)
                  \<lparr>s_description := xc_description cr nm (XC_build cr (''XC_'' @ fst (last xcs)) rs)\<rparr>)"
proof (cases "check_consistency g (heap reg ! r) nm")
  case (Inl e)
  then show ?thesis
    using assms(1,3) build_check_fails [of reg nm r g e cr np dv rs] by simp
next
  case (Inr u)
  then show ?thesis
    using assms build_xc_branch [of reg nm r g xcs cr np dv rs]
    by (simp split: if_splits)
qed

text \<open>Witness for C9: the bundled example has two component ids and the second is used.\<close>

theorem C9_witness:
  "functionals example_registry ''B3LYP_XC'' = Some 0 \<and>
   xc_functionals (heap example_registry ! 0) = Some [(''GGA_XC_B97_D'', []), (''HYB_GGA_XC_B3LYP'', [])] \<and>
   \<not> isl (fst (build_superfunctional_from_dictionary example_core None ''B3LYP_XC'' 500 1 True example_registry)) \<and>
   fst (projr (fst (build_superfunctional_from_dictionary example_core None ''B3LYP_XC'' 500 1 True example_registry))) =
     finish (heap example_registry ! 0) ''B3LYP_XC'' 500 1
       ((XC_build example_core ''XC_HYB_GGA_XC_B3LYP'' True)
          \<lparr>s_description := xc_description example_core ''B3LYP_XC'' (XC_build example_core ''XC_HYB_GGA_XC_B3LYP'' True)\<rparr>)"
proof -
  let ?B = "build_superfunctional_from_dictionary example_core None ''B3LYP_XC'' 500 1 True example_registry"
  have h1: "functionals example_registry ''B3LYP_XC'' = Some 0" by code_simp
  have h2: "xc_functionals (heap example_registry ! 0) = Some [(''GGA_XC_B97_D'', []), (''HYB_GGA_XC_B3LYP'', [])]"
    by code_simp
  have h3: "\<not> isl (fst ?B)" by code_simp
  from C9_bundled_uses_last_key [OF h1 h2 not_isl_eq [OF h3]] h1 h2 h3
  show ?thesis by simp
qed


lemma build_success_check:
  assumes "functionals reg nm = Some r"
    and "fst (build_superfunctional_from_dictionary cr g nm np dv rs reg) = Inr x"
  shows "check_consistency g (heap reg ! r) nm = Inr ()"
proof (cases "check_consistency g (heap reg ! r) nm")
  case (Inl e)
  then show ?thesis
    using assms build_check_fails [of reg nm r g e cr np dv rs] by simp
next
  case (Inr u)
  then show ?thesis by simp
qed


text \<open>
  Claim C8: for a dict of the composite branch (no \<^verbatim>\<open>xc_functionals\<close>) without
  \<^verbatim>\<open>x_hf\<close>, a build that returns an object has set its exchange mixing from the triple
  queried for the one \<^verbatim>\<open>x_functionals\<close> entry that requests hybrid coefficients,
  \<open>alpha = ALPHA + BETA\<close>, \<open>beta = ALPHA - BETA\<close>, \<open>omega = OMEGA\<close>, and to
  zeros if no entry requests them.
\<close>

theorem C8_candidate_mixing:
  assumes "functionals reg nm = Some r"
    and "x_hf (heap reg ! r) = None"
    and "xc_functionals (heap reg ! r) = None"
    and "fst (build_superfunctional_from_dictionary cr g nm np dv rs reg) = Inr (s, disp)"
  shows "\<exists>x_funcs. x_functionals (heap reg ! r) = Some x_funcs \<and>
           (filter (\<lambda>item. xp_use_libxc (snd item) = Some True) x_funcs = [] \<longrightarrow>
              s_x_alpha s = 0 \<and> s_x_beta s = 0 \<and> s_x_omega s = 0) \<and>
           (\<forall>item. filter (\<lambda>item. xp_use_libxc (snd item) = Some True) x_funcs = [item] \<longrightarrow>
              s_x_alpha s = ALPHA (f_cam_coef (LibXCFunctional cr (''XC_'' @ fst item) rs))
                          + BETA (f_cam_coef (LibXCFunctional cr (''XC_'' @ fst item) rs)) \<and>
              s_x_beta s = ALPHA (f_cam_coef (LibXCFunctional cr (''XC_'' @ fst item) rs))
                         - BETA (f_cam_coef (LibXCFunctional cr (''XC_'' @ fst item) rs)) \<and>
              s_x_omega s = OMEGA (f_cam_coef (LibXCFunctional cr (''XC_'' @ fst item) rs)))"
proof -
  have ok: "check_consistency g (heap reg ! r) nm = Inr ()"
    using build_success_check [OF assms(1,4)] .
  obtain x_funcs where xf: "x_functionals (heap reg ! r) = Some x_funcs"
    using check_consistency_exchange [OF ok assms(3,2)] by auto
  have s: "s = finish (heap reg ! r) nm np dv (fst (build_blank cr rs (heap reg ! r)))"
    using build_blank_branch [OF assms(1) ok assms(3), of cr np dv rs] assms(4) by simp
  have "s_x_alpha s = ALPHA (requested_triple cr rs x_funcs) + BETA (requested_triple cr rs x_funcs)"
    and "s_x_beta s = ALPHA (requested_triple cr rs x_funcs) - BETA (requested_triple cr rs x_funcs)"
    and "s_x_omega s = OMEGA (requested_triple cr rs x_funcs)"
    unfolding s finish_mixing
    using build_blank_mixing_no_x_hf [OF assms(2) xf, of cr rs] by simp_all
  then show ?thesis
    using xf by (auto simp: requested_triple_def)
qed

text \<open>Witness for C8: in the hybrid example the second entry alone requests the
  coefficients; in the \<open>b88\<close> example no entry does.\<close>

theorem C8_witness:
  "functionals example_registry ''B3LYP'' = Some 2 \<and>
   x_hf (heap example_registry ! 2) = None \<and>
   xc_functionals (heap example_registry ! 2) = None \<and>
   \<not> isl (fst (build_superfunctional_from_dictionary example_core None ''B3LYP'' 500 1 True example_registry)) \<and>
   filter (\<lambda>item. xp_use_libxc (snd item) = Some True) (the (x_functionals (heap example_registry ! 2)))
     = [(''HYB_GGA_XC_B3LYP'', no_x_params\<lparr>xp_use_libxc := Some True\<rparr>)] \<and>
   s_x_alpha (fst (projr (fst (build_superfunctional_from_dictionary example_core None ''B3LYP'' 500 1 True example_registry)))) = 1 / 5 \<and>
   functionals example_registry ''B88'' = Some 1 \<and>
   x_hf (heap example_registry ! 1) = None \<and>
   xc_functionals (heap example_registry ! 1) = None \<and>
   \<not> isl (fst (build_superfunctional_from_dictionary example_core None ''B88'' 500 1 True example_registry)) \<and>
   filter (\<lambda>item. xp_use_libxc (snd item) = Some True) (the (x_functionals (heap example_registry ! 1))) = [] \<and>
   s_x_alpha (fst (projr (fst (build_superfunctional_from_dictionary example_core None ''B88'' 500 1 True example_registry)))) = 0"
proof -
  let ?B = "build_superfunctional_from_dictionary example_core None ''B3LYP'' 500 1 True example_registry"
  let ?C = "build_superfunctional_from_dictionary example_core None ''B88'' 500 1 True example_registry"
  let ?item = "(''HYB_GGA_XC_B3LYP'', no_x_params\<lparr>xp_use_libxc := Some True\<rparr>)"
  have h1: "functionals example_registry ''B3LYP'' = Some 2" by code_simp
  have h2: "x_hf (heap example_registry ! 2) = None" by code_simp
  have h3: "xc_functionals (heap example_registry ! 2) = None" by code_simp
  have h4: "\<not> isl (fst ?B)" by code_simp
  have h5: "filter (\<lambda>item. xp_use_libxc (snd item) = Some True) (the (x_functionals (heap example_registry ! 2)))
      = [?item]"
    by code_simp
  have h6: "ALPHA (f_cam_coef (LibXCFunctional example_core (''XC_'' @ fst ?item) True))
      + BETA (f_cam_coef (LibXCFunctional example_core (''XC_'' @ fst ?item) True)) = 1 / 5"
    by (simp add: example_core_def)
  have k1: "functionals example_registry ''B88'' = Some 1" by code_simp
  have k2: "x_hf (heap example_registry ! 1) = None" by code_simp
  have k3: "xc_functionals (heap example_registry ! 1) = None" by code_simp
  have k4: "\<not> isl (fst ?C)" by code_simp
  have k5: "filter (\<lambda>item. xp_use_libxc (snd item) = Some True) (the (x_functionals (heap example_registry ! 1))) = []"
    by code_simp
  have a: "s_x_alpha (fst (projr (fst ?B))) = 1 / 5"
    using C8_candidate_mixing [OF h1 h2 h3 not_isl_eq [OF h4]] h5 h6 by auto
  have b: "s_x_alpha (fst (projr (fst ?C))) = 0"
    using C8_candidate_mixing [OF k1 k2 k3 not_isl_eq [OF k4]] k5 by auto
  show ?thesis
    using h1 h2 h3 h4 h5 a k1 k2 k3 k4 k5 b by blast
qed






subsection \<open>Registry builder\<close>

lemma upper_char_not_lower: "\<not> is_lower (upper_char c)"
  by (auto simp: upper_char_def is_lower_def less_eq_char_def)

lemma upper_char_fixed: "\<not> is_lower c \<Longrightarrow> upper_char c = c"
  by (simp add: upper_char_def)

lemma upper_no_lower: "c \<in> set (upper s) \<Longrightarrow> \<not> is_lower c"
  by (auto simp: upper_def upper_char_not_lower)

lemma upper_fixed: "(\<forall>c\<in>set s. \<not> is_lower c) \<Longrightarrow> upper s = s"
  by (induction s) (auto simp: upper_def upper_char_fixed)

lemma upper_idem: "upper (upper s) = upper s"
  by (rule upper_fixed) (auto dest: upper_no_lower)

lemma register_apply: "register ks r m k = (if k \<in> set ks then Some r else m k)"
  by (induction ks arbitrary: m) auto

lemma add_variant_functionals:
  "functionals (add_variant base als dn dt item reg) k =
     (if upper (fst item) \<in> set als \<and> k \<in> set (composite_keys als dn)
      then Some (length (heap reg)) else functionals reg k)"
  by (simp add: add_variant_def register_apply composite_keys_def)

lemma add_variant_heap:
  "heap (add_variant base als dn dt item reg) =
     (if upper (fst item) \<in> set als then heap reg @ [dispersion_variant base dt (snd item)]
      else heap reg)"
  by (simp add: add_variant_def)

lemma add_variant_no_match:
  "upper (fst item) \<notin> set als \<Longrightarrow> add_variant base als dn dt item reg = reg"
  by (simp add: add_variant_def)

lemma extends_refl: "extends reg reg"
  by (simp add: extends_def)

lemma extends_trans: "extends a b \<Longrightarrow> extends b c \<Longrightarrow> extends a c"
  by (auto simp: extends_def)

lemma extends_nth: "extends reg reg' \<Longrightarrow> r < length (heap reg) \<Longrightarrow> heap reg' ! r = heap reg ! r"
  by (auto simp: extends_def nth_append)

lemma extends_length: "extends reg reg' \<Longrightarrow> length (heap reg) \<le> length (heap reg')"
  by (auto simp: extends_def)

lemma add_variant_extends: "extends reg (add_variant base als dn dt item reg)"
  by (simp add: extends_def add_variant_heap)

lemma fold_add_variant_extends: "extends reg (fold (add_variant base als dn dt) rows reg)"
proof (induction rows arbitrary: reg)
  case Nil
  show ?case by (simp add: extends_refl)
next
  case (Cons item rows)
  show ?case
    using add_variant_extends Cons.IH extends_trans by (simp, blast)
qed

lemma fold_add_variant_frame:
  "k \<notin> set (composite_keys als dn) \<Longrightarrow>
   functionals (fold (add_variant base als dn dt) rows reg) k = functionals reg k"
  by (induction rows arbitrary: reg) (simp_all add: add_variant_functionals)

lemma fold_add_variant_no_match:
  "filter (\<lambda>item. upper (fst item) \<in> set als) rows = [] \<Longrightarrow>
   fold (add_variant base als dn dt) rows reg = reg"
  by (induction rows arbitrary: reg) (auto simp: add_variant_no_match split: if_splits)


lemma holds_variant_frame:
  assumes "holds_variant reg k base dt" "extends reg reg'" "functionals reg' k = functionals reg k"
  shows "holds_variant reg' k base dt"
proof -
  from assms(1) obtain r row where r: "functionals reg k = Some r" "r < length (heap reg)"
      "heap reg ! r = dispersion_variant base dt row"
    by (auto simp: holds_variant_def)
  have "heap reg' ! r = heap reg ! r" "r < length (heap reg')"
    using extends_nth [OF assms(2) r(2)] extends_length [OF assms(2)] r(2) by auto
  then show ?thesis
    using r assms(3) by (auto simp: holds_variant_def)
qed

lemma add_variant_establishes:
  assumes "upper (fst item) \<in> set als" "k \<in> set (composite_keys als dn)"
  shows "holds_variant (add_variant base als dn dt item reg) k base dt"
  using assms
  by (auto simp: holds_variant_def add_variant_functionals add_variant_heap)

lemma add_variant_preserves:
  assumes "holds_variant reg k base dt" "k \<in> set (composite_keys als dn) \<longrightarrow> dt' = dt"
  shows "holds_variant (add_variant base als dn dt' item reg) k base dt"
proof (cases "upper (fst item) \<in> set als \<and> k \<in> set (composite_keys als dn)")
  case True
  then show ?thesis
    using assms(2) add_variant_establishes [of item als k dn base dt reg] by simp
next
  case False
  then have "functionals (add_variant base als dn dt' item reg) k = functionals reg k"
    by (auto simp: add_variant_functionals)
  then show ?thesis
    using holds_variant_frame [OF assms(1) add_variant_extends] by blast
qed

lemma fold_add_variant_preserves:
  assumes "holds_variant reg k base dt" "k \<in> set (composite_keys als dn) \<longrightarrow> dt' = dt"
  shows "holds_variant (fold (add_variant base als dn dt') rows reg) k base dt"
  using assms(1)
proof (induction rows arbitrary: reg)
  case Nil
  then show ?case by simp
next
  case (Cons item rows)
  show ?case
    using Cons.IH [OF add_variant_preserves [OF Cons.prems assms(2)]] by simp
qed

lemma fold_add_variant_establishes:
  assumes "k \<in> set (composite_keys als dn)" "item \<in> set rows" "upper (fst item) \<in> set als"
  shows "holds_variant (fold (add_variant base als dn dt) rows reg) k base dt"
  using assms(2)
proof (induction rows arbitrary: reg)
  case Nil
  then show ?case by simp
next
  case (Cons x rows)
  show ?case
  proof (cases "x = item")
    case True
    have "holds_variant (add_variant base als dn dt x reg) k base dt"
      using add_variant_establishes [OF _ assms(1)] assms(3) True by simp
    then show ?thesis
      using fold_add_variant_preserves [of _ k base dt als dn dt rows] by simp
  next
    case False
    then have "item \<in> set rows" using Cons.prems by simp
    then show ?thesis using Cons.IH by simp
  qed
qed

lemma expand_dispersion_extends:
  "expand_dispersion dc base als names reg = Inr reg' \<Longrightarrow> extends reg reg'"
proof (induction names arbitrary: reg)
  case Nil
  then show ?case by (simp add: extends_refl)
next
  case (Cons nt names)
  obtain dn dt where nt: "nt = (dn, dt)" by (cases nt)
  from Cons.prems obtain rows where rows: "map_of dc dt = Some rows"
    and rest: "expand_dispersion dc base als names (fold (add_variant base als dn dt) rows reg) = Inr reg'"
    by (auto simp: nt split: option.splits)
  show ?case
    using Cons.IH [OF rest] fold_add_variant_extends extends_trans by blast
qed

lemma expand_dispersion_frame:
  assumes "expand_dispersion dc base als names reg = Inr reg'"
    and "\<forall>(dn, dt)\<in>set names. matching_rows dc als dt \<noteq> [] \<longrightarrow> k \<notin> set (composite_keys als dn)"
  shows "functionals reg' k = functionals reg k"
  using assms
proof (induction names arbitrary: reg)
  case Nil
  then show ?case by simp
next
  case (Cons nt names)
  obtain dn dt where nt: "nt = (dn, dt)" by (cases nt)
  from Cons.prems(1) obtain rows where rows: "map_of dc dt = Some rows"
    and rest: "expand_dispersion dc base als names (fold (add_variant base als dn dt) rows reg) = Inr reg'"
    by (auto simp: nt split: option.splits)
  have step: "functionals (fold (add_variant base als dn dt) rows reg) k = functionals reg k"
  proof (cases "matching_rows dc als dt = []")
    case True
    then show ?thesis
      using rows by (simp add: matching_rows_def fold_add_variant_no_match)
  next
    case False
    then have "k \<notin> set (composite_keys als dn)" using Cons.prems(2) nt by auto
    then show ?thesis by (rule fold_add_variant_frame)
  qed
  have "functionals reg' k = functionals (fold (add_variant base als dn dt) rows reg) k"
    using Cons.IH [OF rest] Cons.prems(2) by auto
  then show ?case using step by simp
qed

lemma expand_dispersion_preserves:
  assumes "expand_dispersion dc base als names reg = Inr reg'"
    and "holds_variant reg k base dt"
    and "\<forall>(dn, dt')\<in>set names. k \<in> set (composite_keys als dn) \<longrightarrow> dt' = dt"
  shows "holds_variant reg' k base dt"
  using assms
proof (induction names arbitrary: reg)
  case Nil
  then show ?case by simp
next
  case (Cons nt names)
  obtain dn dt' where nt: "nt = (dn, dt')" by (cases nt)
  from Cons.prems(1) obtain rows where rows: "map_of dc dt' = Some rows"
    and rest: "expand_dispersion dc base als names (fold (add_variant base als dn dt') rows reg) = Inr reg'"
    by (auto simp: nt split: option.splits)
  have "k \<in> set (composite_keys als dn) \<longrightarrow> dt' = dt"
    using Cons.prems(3) nt by auto
  then have "holds_variant (fold (add_variant base als dn dt') rows reg) k base dt"
    using fold_add_variant_preserves [OF Cons.prems(2)] by blast
  then show ?case
    using Cons.IH [OF rest] Cons.prems(3) by auto
qed

lemma expand_dispersion_establishes:
  assumes "expand_dispersion dc base als names reg = Inr reg'"
    and "(dn, dt) \<in> set names" "k \<in> set (composite_keys als dn)"
    and "map_of dc dt = Some rows" "item \<in> set rows" "upper (fst item) \<in> set als"
    and "\<forall>(dn', dt')\<in>set names. k \<in> set (composite_keys als dn') \<longrightarrow> dt' = dt"
  shows "holds_variant reg' k base dt"
  using assms(1,2,7)
proof (induction names arbitrary: reg)
  case Nil
  then show ?case by simp
next
  case (Cons nt names)
  obtain dn' dt' where nt: "nt = (dn', dt')" by (cases nt)
  from Cons.prems(1) obtain rows' where rows': "map_of dc dt' = Some rows'"
    and rest: "expand_dispersion dc base als names (fold (add_variant base als dn' dt') rows' reg) = Inr reg'"
    by (auto simp: nt split: option.splits)
  have later: "\<forall>(dn', dt')\<in>set names. k \<in> set (composite_keys als dn') \<longrightarrow> dt' = dt"
    using Cons.prems(3) by auto
  show ?case
  proof (cases "nt = (dn, dt)")
    case True
    then have "dn' = dn" "dt' = dt" "rows' = rows" using nt rows' assms(4) by auto
    then have "holds_variant (fold (add_variant base als dn' dt') rows' reg) k base dt"
      using fold_add_variant_establishes [OF assms(3,5,6)] by simp
    then show ?thesis
      using expand_dispersion_preserves [OF rest _ later] by blast
  next
    case False
    then have "(dn, dt) \<in> set names" using Cons.prems(2) by auto
    then show ?thesis using Cons.IH [OF rest _ later] by blast
  qed
qed


lemma takeWhile_dash:
  "CHR ''-'' \<notin> set xs \<Longrightarrow> takeWhile (\<lambda>c. c \<noteq> CHR ''-'') (xs @ CHR ''-'' # ys) = xs"
  by (induction xs) auto

lemma dash_split_unique:
  assumes "CHR ''-'' \<notin> set d" "CHR ''-'' \<notin> set d'" "a @ ''-'' @ d = a' @ ''-'' @ d'"
  shows "d = d'"
proof -
  have "takeWhile (\<lambda>c. c \<noteq> CHR ''-'') (rev (a @ ''-'' @ d)) = rev d"
    using assms(1) by (simp add: takeWhile_dash)
  moreover have "takeWhile (\<lambda>c. c \<noteq> CHR ''-'') (rev (a' @ ''-'' @ d')) = rev d'"
    using assms(2) by (simp add: takeWhile_dash)
  ultimately have "rev d = rev d'" using assms(3) by metis
  then show ?thesis by simp
qed

lemma upper_dispersion_names:
  "map (\<lambda>(n, t). (upper n, t)) dispersion_names =
     [(''D2P4'', ''d2p4''), (''D2GR'', ''d2gr''), (''D3ZERO'', ''d3zero''),
      (''D3BJ'', ''d3bj''), (''D3MZERO'', ''d3mzero''), (''D3MBJ'', ''d3mbj''),
      (''D'', ''d2p4''), (''D2'', ''d2p4''), (''D3'', ''d3zero''), (''D3M'', ''d3mzero'')]"
  by code_simp

lemma upper_dispersion_names_mem:
  "(n, t) \<in> set dispersion_names \<Longrightarrow>
   (upper n, t) \<in> set [(''D2P4'', ''d2p4''), (''D2GR'', ''d2gr''), (''D3ZERO'', ''d3zero''),
      (''D3BJ'', ''d3bj''), (''D3MZERO'', ''d3mzero''), (''D3MBJ'', ''d3mbj''),
      (''D'', ''d2p4''), (''D2'', ''d2p4''), (''D3'', ''d3zero''), (''D3M'', ''d3mzero'')]"
  unfolding upper_dispersion_names [symmetric] by force

lemma dispersion_names_dash_free:
  "(n, t) \<in> set dispersion_names \<Longrightarrow> CHR ''-'' \<notin> set (upper n)"
  by (drule upper_dispersion_names_mem) auto

lemma dispersion_names_functional:
  "(n, t) \<in> set dispersion_names \<Longrightarrow> (n', t') \<in> set dispersion_names \<Longrightarrow>
   upper n = upper n' \<Longrightarrow> t = t'"
  by (drule upper_dispersion_names_mem, drule upper_dispersion_names_mem) auto

lemma composite_key_scheme:
  assumes "(dn, dt) \<in> set dispersion_names" "(dn', dt') \<in> set dispersion_names"
    and "al @ ''-'' @ upper dn \<in> set (composite_keys als dn')"
  shows "dt' = dt"
proof -
  from assms(3) obtain al' where "al @ ''-'' @ upper dn = al' @ ''-'' @ upper dn'"
    by (auto simp: composite_keys_def)
  then have "upper dn = upper dn'"
    using dash_split_unique dispersion_names_dash_free assms(1,2) by blast
  then show ?thesis
    using dispersion_names_functional assms(1,2) by blast
qed

lemma process_functional_extends:
  "process_functional dc e reg = Inr reg' \<Longrightarrow> extends reg reg'"
proof -
  assume a: "process_functional dc e reg = Inr reg'"
  let ?reg1 = "reg\<lparr>functionals := register (get_functional_aliases (snd e)) (fst e) (functionals reg)\<rparr>"
  have e1: "extends reg ?reg1" by (simp add: extends_def)
  show ?thesis
  proof (cases "dispersion (snd e)")
    case None
    then have "expand_dispersion dc (snd e) (get_functional_aliases (snd e)) dispersion_names ?reg1 = Inr reg'"
      using a by (simp add: process_functional_def Let_def)
    then show ?thesis using expand_dispersion_extends e1 extends_trans by blast
  next
    case (Some d)
    then have "reg' = ?reg1" using a by (simp add: process_functional_def Let_def)
    then show ?thesis using e1 by simp
  qed
qed

lemma variant_keys_mem:
  assumes "dispersion fd = None" "(dn, dt) \<in> set dispersion_names"
    "matching_rows dc (get_functional_aliases fd) dt \<noteq> []"
    "k \<in> set (composite_keys (get_functional_aliases fd) dn)"
  shows "k \<in> set (variant_keys dc fd)"
  using assms by (force simp: variant_keys_def)

lemma process_functional_frame:
  assumes "process_functional dc e reg = Inr reg'" "k \<notin> set (keys_written dc (snd e))"
  shows "functionals reg' k = functionals reg k"
proof -
  let ?als = "get_functional_aliases (snd e)"
  let ?reg1 = "reg\<lparr>functionals := register ?als (fst e) (functionals reg)\<rparr>"
  have k1: "functionals ?reg1 k = functionals reg k"
    using assms(2) by (simp add: register_apply keys_written_def)
  show ?thesis
  proof (cases "dispersion (snd e)")
    case None
    then have ex: "expand_dispersion dc (snd e) ?als dispersion_names ?reg1 = Inr reg'"
      using assms(1) by (simp add: process_functional_def Let_def)
    have "\<forall>(dn, dt)\<in>set dispersion_names. matching_rows dc ?als dt \<noteq> [] \<longrightarrow> k \<notin> set (composite_keys ?als dn)"
      using assms(2) variant_keys_mem [OF None] by (auto simp: keys_written_def)
    then show ?thesis using expand_dispersion_frame [OF ex] k1 by simp
  next
    case (Some d)
    then have "reg' = ?reg1" using assms(1) by (simp add: process_functional_def Let_def)
    then show ?thesis using k1 by simp
  qed
qed

lemma process_functional_alias:
  assumes "process_functional dc e reg = Inr reg'" "k \<in> set (get_functional_aliases (snd e))"
    "k \<notin> set (variant_keys dc (snd e))"
  shows "functionals reg' k = Some (fst e)"
proof -
  let ?als = "get_functional_aliases (snd e)"
  let ?reg1 = "reg\<lparr>functionals := register ?als (fst e) (functionals reg)\<rparr>"
  have k1: "functionals ?reg1 k = Some (fst e)"
    using assms(2) by (simp add: register_apply)
  show ?thesis
  proof (cases "dispersion (snd e)")
    case None
    then have ex: "expand_dispersion dc (snd e) ?als dispersion_names ?reg1 = Inr reg'"
      using assms(1) by (simp add: process_functional_def Let_def)
    have "\<forall>(dn, dt)\<in>set dispersion_names. matching_rows dc ?als dt \<noteq> [] \<longrightarrow> k \<notin> set (composite_keys ?als dn)"
      using assms(3) variant_keys_mem [OF None] by auto
    then show ?thesis using expand_dispersion_frame [OF ex] k1 by simp
  next
    case (Some d)
    then have "reg' = ?reg1" using assms(1) by (simp add: process_functional_def Let_def)
    then show ?thesis using k1 by simp
  qed
qed

lemma process_functional_variant:
  assumes "process_functional dc e reg = Inr reg'" "dispersion (snd e) = None"
    and "(dn, dt) \<in> set dispersion_names" "map_of dc dt = Some rows"
    and "item \<in> set rows" "upper (fst item) \<in> set (get_functional_aliases (snd e))"
    and "al \<in> set (get_functional_aliases (snd e))"
  shows "holds_variant reg' (al @ ''-'' @ upper dn) (snd e) dt"
proof -
  let ?als = "get_functional_aliases (snd e)"
  let ?reg1 = "reg\<lparr>functionals := register ?als (fst e) (functionals reg)\<rparr>"
  let ?k = "al @ ''-'' @ upper dn"
  have ex: "expand_dispersion dc (snd e) ?als dispersion_names ?reg1 = Inr reg'"
    using assms(1,2) by (simp add: process_functional_def Let_def)
  have k: "?k \<in> set (composite_keys ?als dn)"
    using assms(7) by (auto simp: composite_keys_def)
  have "\<forall>(dn', dt')\<in>set dispersion_names. ?k \<in> set (composite_keys ?als dn') \<longrightarrow> dt' = dt"
    using composite_key_scheme [OF assms(3)] by blast
  then show ?thesis
    using expand_dispersion_establishes [OF ex assms(3) k assms(4,5,6)] by blast
qed

lemma process_all_append:
  "process_all dc (xs @ ys) reg =
     (case process_all dc xs reg of Inl err \<Rightarrow> Inl err | Inr reg' \<Rightarrow> process_all dc ys reg')"
  by (induction xs arbitrary: reg) (auto split: sum.splits)

lemma process_all_extends:
  "process_all dc es reg = Inr reg' \<Longrightarrow> extends reg reg'"
proof (induction es arbitrary: reg)
  case Nil
  then show ?case by (simp add: extends_refl)
next
  case (Cons e es)
  from Cons.prems obtain reg1 where 1: "process_functional dc e reg = Inr reg1"
    and 2: "process_all dc es reg1 = Inr reg'"
    by (auto split: sum.splits)
  show ?case
    using process_functional_extends [OF 1] Cons.IH [OF 2] extends_trans by blast
qed

lemma process_all_frame:
  assumes "process_all dc es reg = Inr reg'" "\<forall>e\<in>set es. k \<notin> set (keys_written dc (snd e))"
  shows "functionals reg' k = functionals reg k"
  using assms
proof (induction es arbitrary: reg)
  case Nil
  then show ?case by simp
next
  case (Cons e es)
  from Cons.prems(1) obtain reg1 where 1: "process_functional dc e reg = Inr reg1"
    and 2: "process_all dc es reg1 = Inr reg'"
    by (auto split: sum.splits)
  have "functionals reg1 k = functionals reg k"
    using process_functional_frame [OF 1] Cons.prems(2) by simp
  moreover have "functionals reg' k = functionals reg1 k"
    using Cons.IH [OF 2] Cons.prems(2) by simp
  ultimately show ?case by simp
qed

lemma build_functionals_split:
  assumes "build_functionals dc (pre @ fd # post) = Inr reg"
  obtains reg0 reg1 where
    "process_all dc (enumerate 0 pre) \<lparr>functionals = Map.empty, heap = pre @ fd # post\<rparr> = Inr reg0"
    "process_functional dc (length pre, fd) reg0 = Inr reg1"
    "process_all dc (enumerate (Suc (length pre)) post) reg1 = Inr reg"
proof -
  have en: "enumerate 0 (pre @ fd # post) =
      enumerate 0 pre @ (length pre, fd) # enumerate (Suc (length pre)) post"
    by (simp add: enumerate_append_eq)
  show ?thesis
    using assms that
    unfolding build_functionals_def en process_all_append
    by (auto split: sum.splits)
qed

lemma build_functionals_heap:
  assumes "build_functionals dc defs = Inr reg"
  shows "\<exists>ys. heap reg = defs @ ys"
  using process_all_extends [OF assms [unfolded build_functionals_def]]
  by (simp add: extends_def)


lemma not_lower_dash: "\<not> is_lower CHR ''-''"
  by (simp add: is_lower_def less_eq_char_def)

lemma aliases_no_lower:
  "k \<in> set (get_functional_aliases fd) \<Longrightarrow> c \<in> set k \<Longrightarrow> \<not> is_lower c"
  by (auto simp: get_functional_aliases_def split: option.splits dest: upper_no_lower)

lemma composite_keys_no_lower:
  assumes "k \<in> set (composite_keys (get_functional_aliases fd) dn)" "c \<in> set k"
  shows "\<not> is_lower c"
proof -
  from assms(1) obtain al where al: "al \<in> set (get_functional_aliases fd)" "k = al @ ''-'' @ upper dn"
    by (auto simp: composite_keys_def)
  then have "c \<in> set al \<or> c = CHR ''-'' \<or> c \<in> set (upper dn)"
    using assms(2) by auto
  then show ?thesis
    using aliases_no_lower [OF al(1)] not_lower_dash upper_no_lower by blast
qed

lemma keys_written_no_lower:
  assumes "k \<in> set (keys_written dc fd)" "c \<in> set k"
  shows "\<not> is_lower c"
proof (cases "k \<in> set (get_functional_aliases fd)")
  case True
  then show ?thesis using aliases_no_lower assms(2) by blast
next
  case False
  then have "k \<in> set (variant_keys dc fd)" using assms(1) by (simp add: keys_written_def)
  then obtain dn where "k \<in> set (composite_keys (get_functional_aliases fd) dn)"
    by (auto simp: variant_keys_def split: option.splits if_splits)
  then show ?thesis using composite_keys_no_lower assms(2) by blast
qed

lemma process_all_frame_enumerate:
  assumes "process_all dc (enumerate n fds) reg = Inr reg'"
    and "\<forall>fd\<in>set fds. k \<notin> set (keys_written dc fd)"
  shows "functionals reg' k = functionals reg k"
proof -
  have "snd ` set (enumerate n fds) = set fds"
    by (metis set_map map_snd_enumerate)
  then have "snd e \<in> set fds" if "e \<in> set (enumerate n fds)" for e
    using that by blast
  then have "\<forall>e\<in>set (enumerate n fds). k \<notin> set (keys_written dc (snd e))"
    using assms(2) by blast
  then show ?thesis by (rule process_all_frame [OF assms(1)])
qed

lemma registry_key_written:
  assumes "build_functionals dc defs = Inr reg" "functionals reg k = Some r"
  shows "\<exists>fd\<in>set defs. k \<in> set (keys_written dc fd)"
proof (rule ccontr)
  assume "\<not> (\<exists>fd\<in>set defs. k \<in> set (keys_written dc fd))"
  then have "\<forall>fd\<in>set defs. k \<notin> set (keys_written dc fd)"
    by blast
  then have "functionals reg k = None"
    using process_all_frame_enumerate [OF assms(1) [unfolded build_functionals_def]] by simp
  then show False using assms(2) by simp
qed

lemma registry_keys_no_lower:
  assumes "build_functionals dc defs = Inr reg" "functionals reg k = Some r"
  shows "\<forall>c\<in>set k. \<not> is_lower c"
  using registry_key_written [OF assms] keys_written_no_lower by blast

lemma not_isl_projr: "\<not> isl x \<Longrightarrow> x = Inr (projr x)"
  by (cases x) auto

lemma example_registry_built:
  "build_functionals example_dashcoeff [ex_bundled, ex_b88, ex_hybrid, ex_x_hf] = Inr example_registry"
proof -
  have "\<not> isl (build_functionals example_dashcoeff [ex_bundled, ex_b88, ex_hybrid, ex_x_hf])"
    by code_simp
  then show ?thesis
    unfolding example_registry_def by (rule not_isl_projr)
qed

text \<open>
  Claim C10: every key of the registry built from any definitions and any coefficient
  table is its own uppercased form and contains no lowercase letter, be it a plain alias
  key or a composite dispersion key.
\<close>

theorem C10_keys_uppercase:
  assumes "build_functionals dc defs = Inr reg" and "functionals reg k = Some r"
  shows "upper k = k \<and> (\<forall>c\<in>set k. \<not> is_lower c)"
  using registry_keys_no_lower [OF assms] upper_fixed by blast

text \<open>Witness for C10: a composite key of the example registry.\<close>

theorem C10_witness:
  "build_functionals example_dashcoeff [ex_bundled, ex_b88, ex_hybrid, ex_x_hf] = Inr example_registry \<and>
   functionals example_registry ''BECKE88-D3ZERO'' = Some 4 \<and>
   upper ''BECKE88-D3ZERO'' = ''BECKE88-D3ZERO'' \<and>
   list_all (\<lambda>c. \<not> is_lower c) ''BECKE88-D3ZERO''"
proof -
  have h: "functionals example_registry ''BECKE88-D3ZERO'' = Some 4" by code_simp
  from C10_keys_uppercase [OF example_registry_built h] example_registry_built h
  show ?thesis by (simp add: list_all_iff)
qed

lemma names_aliases:
  "a \<in> set (name fd # (case aliases fd of None \<Rightarrow> [] | Some als \<Rightarrow> als)) \<Longrightarrow>
   upper a \<in> set (get_functional_aliases fd)"
  by (auto simp: get_functional_aliases_def split: option.splits)

text \<open>
  Claim C1, as amended: a definition is registered under the uppercased spelling of its
  name and of each alias. As long as that key has not been assigned again (by a
  dispersion variant of the definition itself or by a definition processed later), the
  key of any case variant, uppercased, resolves to the cell of the definition itself,
  the same for every name and alias. The lookup of the build is by exact key: a name
  that is not its own uppercased form raises \<^verbatim>\<open>KeyError\<close>.
\<close>

theorem C1_lookup_by_uppercase_key:
  assumes "build_functionals dc (pre @ fd # post) = Inr reg"
    and "a \<in> set (name fd # (case aliases fd of None \<Rightarrow> [] | Some als \<Rightarrow> als))"
    and "upper v = upper a"
    and "upper a \<notin> set (variant_keys dc fd)"
    and "\<forall>fd'\<in>set post. upper a \<notin> set (keys_written dc fd')"
  shows "functionals reg (upper v) = Some (length pre) \<and> heap reg ! length pre = fd \<and>
         (upper v \<noteq> v \<longrightarrow>
            build_superfunctional_from_dictionary cr g v np dv rs reg = (Inl (KeyError v), reg))"
proof -
  obtain reg0 reg1 where
      p1: "process_functional dc (length pre, fd) reg0 = Inr reg1"
      and p2: "process_all dc (enumerate (Suc (length pre)) post) reg1 = Inr reg"
    using build_functionals_split [OF assms(1)] by blast
  have "functionals reg1 (upper a) = Some (length pre)"
    using process_functional_alias [OF p1] names_aliases [OF assms(2)] assms(4) by simp
  moreover have "functionals reg (upper a) = functionals reg1 (upper a)"
    using process_all_frame_enumerate [OF p2 assms(5)] .
  ultimately have 1: "functionals reg (upper v) = Some (length pre)"
    using assms(3) by simp
  have 2: "heap reg ! length pre = fd"
    using build_functionals_heap [OF assms(1)] by (auto simp: nth_append)
  have 3: "build_superfunctional_from_dictionary cr g v np dv rs reg = (Inl (KeyError v), reg)"
    if "upper v \<noteq> v"
  proof -
    have "functionals reg v = None"
    proof (cases "functionals reg v")
      case None
      then show ?thesis .
    next
      case (Some r)
      then have "upper v = v"
        using registry_keys_no_lower [OF assms(1) Some] upper_fixed by blast
      then show ?thesis using that by simp
    qed
    then show ?thesis by (rule build_lookup_fails)
  qed
  show ?thesis using 1 2 3 by blast
qed


text \<open>Witness for C1: the alias \<^verbatim>\<open>Becke88\<close> of the \<open>b88\<close> example, asked for as
  \<^verbatim>\<open>becke88\<close>.\<close>

theorem C1_witness:
  "build_functionals example_dashcoeff ([ex_bundled] @ ex_b88 # [ex_hybrid, ex_x_hf]) = Inr example_registry \<and>
   ''Becke88'' \<in> set (name ex_b88 # (case aliases ex_b88 of None \<Rightarrow> [] | Some als \<Rightarrow> als)) \<and>
   upper ''becke88'' = upper ''Becke88'' \<and>
   upper ''Becke88'' \<notin> set (variant_keys example_dashcoeff ex_b88) \<and>
   upper ''Becke88'' \<notin> set (keys_written example_dashcoeff ex_hybrid) \<and>
   upper ''Becke88'' \<notin> set (keys_written example_dashcoeff ex_x_hf) \<and>
   upper ''becke88'' \<noteq> ''becke88'' \<and>
   functionals example_registry (upper ''becke88'') = Some 1 \<and>
   heap example_registry ! 1 = ex_b88 \<and>
   build_superfunctional_from_dictionary example_core None ''becke88'' 500 1 True example_registry =
     (Inl (KeyError ''becke88''), example_registry)"
proof -
  have h1: "build_functionals example_dashcoeff ([ex_bundled] @ ex_b88 # [ex_hybrid, ex_x_hf]) = Inr example_registry"
    using example_registry_built by simp
  have h2: "''Becke88'' \<in> set (name ex_b88 # (case aliases ex_b88 of None \<Rightarrow> [] | Some als \<Rightarrow> als))"
    by code_simp
  have h3: "upper ''becke88'' = upper ''Becke88''" by code_simp
  have h4: "upper ''Becke88'' \<notin> set (variant_keys example_dashcoeff ex_b88)" by code_simp
  have h5: "\<forall>fd'\<in>set [ex_hybrid, ex_x_hf]. upper ''Becke88'' \<notin> set (keys_written example_dashcoeff fd')"
    by code_simp
  have h6: "upper ''becke88'' \<noteq> ''becke88''" by code_simp
  have h5a: "upper ''Becke88'' \<notin> set (keys_written example_dashcoeff ex_hybrid)"
    and h5b: "upper ''Becke88'' \<notin> set (keys_written example_dashcoeff ex_x_hf)"
    using h5 by simp_all
  from C1_lookup_by_uppercase_key [OF h1 h2 h3 h4 h5, of example_core None 500 1 True] h1 h2 h3 h4 h5a h5b h6
  show ?thesis by simp
qed

text \<open>
  Counterexample to C1 as stated: the definition named \<^verbatim>\<open>b88\<close> is registered under
  \<^verbatim>\<open>B88\<close>, and a build asked for \<^verbatim>\<open>b88\<close>, a case variant of the canonical name, raises
  \<^verbatim>\<open>KeyError\<close>.
\<close>

theorem C1_lowercase_lookup_counterexample:
  "name ex_b88 = ''b88'' \<and>
   heap example_registry ! 1 = ex_b88 \<and>
   functionals example_registry ''B88'' = Some 1 \<and>
   functionals example_registry ''b88'' = None \<and>
   fst (build_superfunctional_from_dictionary example_core None ''b88'' 500 1 True example_registry) =
     Inl (KeyError ''b88'')"
  by code_simp

text \<open>
  Claim C7, as amended: for a base definition without dispersion, a dispersion name
  whose scheme has a row matching one of the aliases, and any alias, the registry holds
  under \<^verbatim>\<open>alias-NAME\<close> a variant whose dispersion type is the scheme and whose name is the
  base name with \<^verbatim>\<open>-scheme\<close> appended, provided no definition processed later assigns
  that key.
\<close>

theorem C7_composite_entries:
  assumes "build_functionals dc (pre @ fd # post) = Inr reg"
    and "dispersion fd = None"
    and "(dispersion_name, dispersion_type) \<in> set dispersion_names"
    and "map_of dc dispersion_type = Some rows"
    and "item \<in> set rows"
    and "upper (fst item) \<in> set (get_functional_aliases fd)"
    and "al \<in> set (get_functional_aliases fd)"
    and "\<forall>fd'\<in>set post. al @ ''-'' @ upper dispersion_name \<notin> set (keys_written dc fd')"
  shows "\<exists>r d. functionals reg (al @ ''-'' @ upper dispersion_name) = Some r \<and>
           r < length (heap reg) \<and>
           dispersion (heap reg ! r) = Some d \<and> d_type d = dispersion_type \<and>
           name (heap reg ! r) = name fd @ ''-'' @ dispersion_type"
proof -
  let ?k = "al @ ''-'' @ upper dispersion_name"
  obtain reg0 reg1 where
      p1: "process_functional dc (length pre, fd) reg0 = Inr reg1"
      and p2: "process_all dc (enumerate (Suc (length pre)) post) reg1 = Inr reg"
    using build_functionals_split [OF assms(1)] by blast
  have "holds_variant reg1 ?k fd dispersion_type"
    using process_functional_variant [OF p1 _ assms(3,4,5)] assms(2,6,7) by simp
  moreover have "functionals reg ?k = functionals reg1 ?k"
    by (rule process_all_frame_enumerate [OF p2 assms(8)])
  ultimately have "holds_variant reg ?k fd dispersion_type"
    using holds_variant_frame process_all_extends [OF p2] by blast
  then show ?thesis
    by (auto simp: holds_variant_def dispersion_variant_def)
qed

text \<open>Witness for C7: the alias \<^verbatim>\<open>B88\<close>, the short name \<^verbatim>\<open>d3\<close> and the row \<^verbatim>\<open>b88\<close> of the
  scheme \<^verbatim>\<open>d3zero\<close>.\<close>

theorem C7_witness:
  "build_functionals example_dashcoeff ([ex_bundled] @ ex_b88 # [ex_hybrid, ex_x_hf]) = Inr example_registry \<and>
   dispersion ex_b88 = None \<and>
   (''d3'', ''d3zero'') \<in> set dispersion_names \<and>
   map_of example_dashcoeff ''d3zero'' = Some [(''b88'', \<lparr>row_citation = None, row_values = [(''s6'', 1)]\<rparr>)] \<and>
   upper ''b88'' \<in> set (get_functional_aliases ex_b88) \<and>
   ''B88'' \<in> set (get_functional_aliases ex_b88) \<and>
   ''B88'' @ ''-'' @ upper ''d3'' \<notin> set (keys_written example_dashcoeff ex_hybrid) \<and>
   ''B88'' @ ''-'' @ upper ''d3'' \<notin> set (keys_written example_dashcoeff ex_x_hf) \<and>
   (\<exists>r d. functionals example_registry ''B88-D3'' = Some r \<and> r < length (heap example_registry) \<and>
      dispersion (heap example_registry ! r) = Some d \<and> d_type d = ''d3zero'' \<and>
      name (heap example_registry ! r) = ''b88-d3zero'')"
proof -
  have h1: "build_functionals example_dashcoeff ([ex_bundled] @ ex_b88 # [ex_hybrid, ex_x_hf]) = Inr example_registry"
    using example_registry_built by simp
  have h2: "dispersion ex_b88 = None" by code_simp
  have h3: "(''d3'', ''d3zero'') \<in> set dispersion_names" by code_simp
  have h4: "map_of example_dashcoeff ''d3zero'' = Some [(''b88'', \<lparr>row_citation = None, row_values = [(''s6'', 1)]\<rparr>)]"
    by code_simp
  have h5: "(''b88'', \<lparr>row_citation = None, row_values = [(''s6'', 1)]\<rparr>) \<in>
      set [(''b88'', \<lparr>row_citation = None, row_values = [(''s6'', 1::real)]\<rparr>)]"
    by simp
  have h6: "upper (fst (''b88'', \<lparr>row_citation = None, row_values = [(''s6'', 1::real)]\<rparr>)) \<in> set (get_functional_aliases ex_b88)"
    by code_simp
  have h7: "''B88'' \<in> set (get_functional_aliases ex_b88)" by code_simp
  have h8: "\<forall>fd'\<in>set [ex_hybrid, ex_x_hf]. ''B88'' @ ''-'' @ upper ''d3'' \<notin> set (keys_written example_dashcoeff fd')"
    by code_simp
  have u: "''B88'' @ ''-'' @ upper ''d3'' = ''B88-D3''" by code_simp
  have n: "name ex_b88 @ ''-'' @ ''d3zero'' = ''b88-d3zero''" by code_simp
  have h8a: "''B88'' @ ''-'' @ upper ''d3'' \<notin> set (keys_written example_dashcoeff ex_hybrid)"
    and h8b: "''B88'' @ ''-'' @ upper ''d3'' \<notin> set (keys_written example_dashcoeff ex_x_hf)"
    using h8 by simp_all
  from C7_composite_entries [OF h1 h2 h3 h4 h5 h6 h7 h8] h1 h2 h3 h4 h6 h7 h8a h8b
  show ?thesis unfolding u n by simp
qed

text \<open>
  Counterexample to C7 as stated: \<open>ex_b88\<close> has the alias \<^verbatim>\<open>B88\<close> matching the row
  \<^verbatim>\<open>b88\<close> of \<^verbatim>\<open>d3zero\<close>, yet in the registry built from \<open>ex_b88\<close> and \<open>ex_b88_d3\<close>
  the key \<^verbatim>\<open>B88-D3\<close> resolves to the later definition, whose dispersion type is
  \<^verbatim>\<open>d2p4\<close> and whose name is not \<^verbatim>\<open>b88-d3zero\<close>.
\<close>

theorem C7_overwritten_counterexample:
  "dispersion ex_b88 = None \<and>
   ''B88'' \<in> set (get_functional_aliases ex_b88) \<and>
   map_of dispersion_names ''d3'' = Some ''d3zero'' \<and>
   map_option (map fst) (map_of example_dashcoeff ''d3zero'') = Some [''b88''] \<and>
   \<not> isl (build_functionals example_dashcoeff [ex_b88, ex_b88_d3]) \<and>
   functionals collision_registry ''B88-D3'' = Some 1 \<and>
   heap collision_registry ! 1 = ex_b88_d3 \<and>
   map_option d_type (dispersion (heap collision_registry ! 1)) = Some ''d2p4'' \<and>
   name (heap collision_registry ! 1) = ''B88-D3'' \<and>
   ''d2p4'' \<noteq> ''d3zero'' \<and> ''B88-D3'' \<noteq> name ex_b88 @ ''-'' @ ''d3zero''"
  by code_simp

end
